theory Spec2Isabelle
  imports Main "HOL-Library.Sublist"
begin

section \<open>The marshaler type table \<^verbatim>\<open>src/coreclr/vm/mtypes.h\<close>\<close>

text \<open>
  The header is a table of rows \<^verbatim>\<open>DEFINE_MARSHALER_TYPE(id, class)\<close>, some of them
  enclosed in \<^verbatim>\<open>#ifdef X\<close> / \<^verbatim>\<open>#if defined(X)\<close> ... \<^verbatim>\<open>#endif\<close>. It is included with
  \<^verbatim>\<open>DEFINE_MARSHALER_TYPE\<close> defined by the includer ("used to generate all the enums and
  tables"). The file is embedded line by line, in file order; comments and blank lines
  are dropped, and so is the closing \<^verbatim>\<open>#undef DEFINE_MARSHALER_TYPE\<close>, which removes the
  includer's row macro after the last row and generates nothing.
\<close>

type_synonym TagId = string
type_synonym ConverterId = string
type_synonym FeatureFlag = string

datatype line =
    DEFINE_MARSHALER_TYPE TagId ConverterId
  | IFDEF FeatureFlag
  | IF_DEFINED FeatureFlag
  | ENDIF

definition mtypes_h :: "line list" where
  "mtypes_h =
    [
     DEFINE_MARSHALER_TYPE ''MARSHAL_TYPE_GENERIC_1'' ''CopyMarshaler1'',
     DEFINE_MARSHALER_TYPE ''MARSHAL_TYPE_GENERIC_U1'' ''CopyMarshalerU1'',
     DEFINE_MARSHALER_TYPE ''MARSHAL_TYPE_GENERIC_2'' ''CopyMarshaler2'',
     DEFINE_MARSHALER_TYPE ''MARSHAL_TYPE_GENERIC_U2'' ''CopyMarshalerU2'',
     DEFINE_MARSHALER_TYPE ''MARSHAL_TYPE_GENERIC_4'' ''CopyMarshaler4'',
     DEFINE_MARSHALER_TYPE ''MARSHAL_TYPE_GENERIC_U4'' ''CopyMarshalerU4'',
     DEFINE_MARSHALER_TYPE ''MARSHAL_TYPE_GENERIC_8'' ''CopyMarshaler8'',
     DEFINE_MARSHALER_TYPE ''MARSHAL_TYPE_WINBOOL'' ''WinBoolMarshaler'',
     DEFINE_MARSHALER_TYPE ''MARSHAL_TYPE_CBOOL'' ''CBoolMarshaler'',
     IFDEF ''FEATURE_COMINTEROP'',
     DEFINE_MARSHALER_TYPE ''MARSHAL_TYPE_VTBOOL'' ''VtBoolMarshaler'',
     ENDIF,
     DEFINE_MARSHALER_TYPE ''MARSHAL_TYPE_ANSICHAR'' ''AnsiCharMarshaler'',
     DEFINE_MARSHALER_TYPE ''MARSHAL_TYPE_FLOAT'' ''FloatMarshaler'',
     DEFINE_MARSHALER_TYPE ''MARSHAL_TYPE_DOUBLE'' ''DoubleMarshaler'',
     DEFINE_MARSHALER_TYPE ''MARSHAL_TYPE_CURRENCY'' ''CurrencyMarshaler'',
     DEFINE_MARSHALER_TYPE ''MARSHAL_TYPE_DECIMAL'' ''DecimalMarshaler'',
     DEFINE_MARSHALER_TYPE ''MARSHAL_TYPE_DECIMAL_PTR'' ''DecimalPtrMarshaler'',
     DEFINE_MARSHALER_TYPE ''MARSHAL_TYPE_GUID'' ''GuidMarshaler'',
     DEFINE_MARSHALER_TYPE ''MARSHAL_TYPE_GUID_PTR'' ''GuidPtrMarshaler'',
     DEFINE_MARSHALER_TYPE ''MARSHAL_TYPE_DATE'' ''DateMarshaler'',
     DEFINE_MARSHALER_TYPE ''MARSHAL_TYPE_LPWSTR'' ''WSTRMarshaler'',
     DEFINE_MARSHALER_TYPE ''MARSHAL_TYPE_LPSTR'' ''CSTRMarshaler'',
     DEFINE_MARSHALER_TYPE ''MARSHAL_TYPE_LPUTF8STR'' ''CUTF8Marshaler'',
     DEFINE_MARSHALER_TYPE ''MARSHAL_TYPE_BSTR'' ''BSTRMarshaler'',
     DEFINE_MARSHALER_TYPE ''MARSHAL_TYPE_ANSIBSTR'' ''AnsiBSTRMarshaler'',
     DEFINE_MARSHALER_TYPE ''MARSHAL_TYPE_LPWSTR_BUFFER'' ''WSTRBufferMarshaler'',
     DEFINE_MARSHALER_TYPE ''MARSHAL_TYPE_LPSTR_BUFFER'' ''CSTRBufferMarshaler'',
     DEFINE_MARSHALER_TYPE ''MARSHAL_TYPE_UTF8_BUFFER'' ''UTF8BufferMarshaler'',
     IF_DEFINED ''FEATURE_COMINTEROP'',
     DEFINE_MARSHALER_TYPE ''MARSHAL_TYPE_INTERFACE'' ''InterfaceMarshaler'',
     ENDIF,
     IFDEF ''FEATURE_COMINTEROP'',
     DEFINE_MARSHALER_TYPE ''MARSHAL_TYPE_SAFEARRAY'' ''SafeArrayMarshaler'',
     ENDIF,
     DEFINE_MARSHALER_TYPE ''MARSHAL_TYPE_NATIVEARRAY'' ''NativeArrayMarshaler'',
     DEFINE_MARSHALER_TYPE ''MARSHAL_TYPE_ASANYA'' ''AsAnyAMarshaler'',
     DEFINE_MARSHALER_TYPE ''MARSHAL_TYPE_ASANYW'' ''AsAnyWMarshaler'',
     DEFINE_MARSHALER_TYPE ''MARSHAL_TYPE_DELEGATE'' ''DelegateMarshaler'',
     DEFINE_MARSHALER_TYPE ''MARSHAL_TYPE_BLITTABLEPTR'' ''BlittablePtrMarshaler'',
     IFDEF ''FEATURE_COMINTEROP'',
     DEFINE_MARSHALER_TYPE ''MARSHAL_TYPE_VBBYVALSTR'' ''VBByValStrMarshaler'',
     DEFINE_MARSHALER_TYPE ''MARSHAL_TYPE_VBBYVALSTRW'' ''VBByValStrWMarshaler'',
     ENDIF,
     DEFINE_MARSHALER_TYPE ''MARSHAL_TYPE_LAYOUTCLASSPTR'' ''LayoutClassPtrMarshaler'',
     DEFINE_MARSHALER_TYPE ''MARSHAL_TYPE_ARRAYWITHOFFSET'' ''ArrayWithOffsetMarshaler'',
     DEFINE_MARSHALER_TYPE ''MARSHAL_TYPE_BLITTABLEVALUECLASS'' ''BlittableValueClassMarshaler'',
     DEFINE_MARSHALER_TYPE ''MARSHAL_TYPE_VALUECLASS'' ''ValueClassMarshaler'',
     DEFINE_MARSHALER_TYPE ''MARSHAL_TYPE_REFERENCECUSTOMMARSHALER'' ''ReferenceCustomMarshaler'',
     DEFINE_MARSHALER_TYPE ''MARSHAL_TYPE_ARGITERATOR'' ''ArgIteratorMarshaler'',
     IF_DEFINED ''TARGET_WINDOWS'',
     DEFINE_MARSHALER_TYPE ''MARSHAL_TYPE_BLITTABLEVALUECLASSWITHCOPYCTOR'' ''BlittableValueClassWithCopyCtorMarshaler'',
     ENDIF,
     IFDEF ''FEATURE_COMINTEROP'',
     DEFINE_MARSHALER_TYPE ''MARSHAL_TYPE_OBJECT'' ''ObjectMarshaler'',
     ENDIF,
     DEFINE_MARSHALER_TYPE ''MARSHAL_TYPE_HANDLEREF'' ''HandleRefMarshaler'',
     DEFINE_MARSHALER_TYPE ''MARSHAL_TYPE_SAFEHANDLE'' ''SafeHandleMarshaler'',
     DEFINE_MARSHALER_TYPE ''MARSHAL_TYPE_CRITICALHANDLE'' ''CriticalHandleMarshaler'',
     IFDEF ''FEATURE_COMINTEROP'',
     DEFINE_MARSHALER_TYPE ''MARSHAL_TYPE_OLECOLOR'' ''OleColorMarshaler'',
     ENDIF,
     DEFINE_MARSHALER_TYPE ''MARSHAL_TYPE_RUNTIMETYPEHANDLE'' ''RuntimeTypeHandleMarshaler'',
     DEFINE_MARSHALER_TYPE ''MARSHAL_TYPE_RUNTIMEMETHODHANDLE'' ''RuntimeMethodHandleMarshaler'',
     DEFINE_MARSHALER_TYPE ''MARSHAL_TYPE_RUNTIMEFIELDHANDLE'' ''RuntimeFieldHandleMarshaler'',
     DEFINE_MARSHALER_TYPE ''MARSHAL_TYPE_FIXED_ARRAY'' ''FixedArrayMarshaler'',
     DEFINE_MARSHALER_TYPE ''MARSHAL_TYPE_FIXED_WSTR'' ''FixedWSTRMarshaler'',
     DEFINE_MARSHALER_TYPE ''MARSHAL_TYPE_FIXED_CSTR'' ''FixedCSTRMarshaler'',
     DEFINE_MARSHALER_TYPE ''MARSHAL_TYPE_BLITTABLE_LAYOUTCLASS'' ''BlittableLayoutClassMarshaler'',
     DEFINE_MARSHALER_TYPE ''MARSHAL_TYPE_LAYOUTCLASS'' ''LayoutClassMarshaler'',
     DEFINE_MARSHALER_TYPE ''MARSHAL_TYPE_POINTER'' ''PointerMarshaler''
    ]"

subsection \<open>Conditional inclusion\<close>

text \<open>
  A configuration is the set of macros that are defined when the header is included.
  The preprocessor keeps a stack with one truth value per open conditional; a row is
  kept when every open conditional holds. An \<^verbatim>\<open>#endif\<close> with no open conditional, and
  a conditional left open at the end of the file, are errors (\<open>None\<close>). The result is
  the list of rows that survive, in file order, each as the pair of the arguments of
  its \<^verbatim>\<open>DEFINE_MARSHALER_TYPE\<close>.
\<close>

type_synonym config = "FeatureFlag set"

fun preprocess :: "config \<Rightarrow> bool list \<Rightarrow> line list \<Rightarrow> (TagId \<times> ConverterId) list option" where
  "preprocess D st [] = (if st = [] then Some [] else None)"
| "preprocess D st (DEFINE_MARSHALER_TYPE t c # ls) =
     (case preprocess D st ls of
        None \<Rightarrow> None
      | Some rs \<Rightarrow> Some (if list_all id st then (t, c) # rs else rs))"
| "preprocess D st (IFDEF f # ls) = preprocess D ((f \<in> D) # st) ls"
| "preprocess D st (IF_DEFINED f # ls) = preprocess D ((f \<in> D) # st) ls"
| "preprocess D st (ENDIF # ls) =
     (case st of [] \<Rightarrow> None | b # st' \<Rightarrow> preprocess D st' ls)"

definition generated :: "config \<Rightarrow> (TagId \<times> ConverterId) list" where
  "generated D = (case preprocess D [] mtypes_h of None \<Rightarrow> [] | Some rs \<Rightarrow> rs)"

subsection \<open>The declared rows with their guards\<close>

text \<open>
  The declaration schema of the table: every row with the macros of the conditionals
  that enclose it (innermost first), whatever the configuration.
\<close>

record TagEntry =
  tag :: TagId
  converterBinding :: ConverterId
  requiredFeatures :: "FeatureFlag list"

fun declared :: "FeatureFlag list \<Rightarrow> line list \<Rightarrow> TagEntry list" where
  "declared gs [] = []"
| "declared gs (DEFINE_MARSHALER_TYPE t c # ls) =
     \<lparr>tag = t, converterBinding = c, requiredFeatures = gs\<rparr> # declared gs ls"
| "declared gs (IFDEF f # ls) = declared (f # gs) ls"
| "declared gs (IF_DEFINED f # ls) = declared (f # gs) ls"
| "declared gs (ENDIF # ls) = declared (tl gs) ls"

definition TagSpace :: "TagEntry list" where
  "TagSpace = declared [] mtypes_h"

definition FeatureGate :: "config \<Rightarrow> TagEntry \<Rightarrow> bool" where
  "FeatureGate D e = list_all (\<lambda>f. f \<in> D) (requiredFeatures e)"

definition row :: "TagEntry \<Rightarrow> TagId \<times> ConverterId" where
  "row e = (tag e, converterBinding e)"

text \<open>
  Well-nested conditionals: \<open>balanced n ls\<close> holds when \<open>ls\<close> closes exactly the \<open>n\<close>
  conditionals open before it and every one it opens itself.
\<close>

fun balanced :: "nat \<Rightarrow> line list \<Rightarrow> bool" where
  "balanced n [] = (n = 0)"
| "balanced n (DEFINE_MARSHALER_TYPE t c # ls) = balanced n ls"
| "balanced n (IFDEF f # ls) = balanced (Suc n) ls"
| "balanced n (IF_DEFINED f # ls) = balanced (Suc n) ls"
| "balanced n (ENDIF # ls) = (case n of 0 \<Rightarrow> False | Suc m \<Rightarrow> balanced m ls)"

subsection \<open>The generated enumeration\<close>

text \<open>
  Modelled from the spec: the includer's definition of \<^verbatim>\<open>DEFINE_MARSHALER_TYPE\<close> that
  turns the rows into the tag enumeration is not part of the sources. The spec
  (section 6) has the enumeration generated from one pass over the rows, and names the
  source's mechanism (section 9) as "implicit global numeric identifiers tied to
  declaration order": one enumerator per surviving row, in row order, numbered from 0
  as C numbers enumerators that have no initialiser.
\<close>

definition MarshalType :: "config \<Rightarrow> TagId list" where
  "MarshalType D = map fst (generated D)"

fun index_of :: "'a list \<Rightarrow> 'a \<Rightarrow> nat option" where
  "index_of [] x = None"
| "index_of (y # ys) x = (if y = x then Some 0 else map_option Suc (index_of ys x))"

definition ordinal :: "config \<Rightarrow> TagId \<Rightarrow> nat option" where
  "ordinal D t = index_of (MarshalType D) t"


subsection \<open>Categories of converters\<close>

text \<open>
  Modelled from the spec: the table has no category column. The spec (section 4.1)
  lists the categories in their order; \<open>category\<close> gives the category of the entries
  whose identifier names it (\<^verbatim>\<open>GENERIC\<close>: general-purpose copy, \<^verbatim>\<open>STR\<close>: string,
  \<^verbatim>\<open>ARRAY\<close>: aggregate/array, \<^verbatim>\<open>HANDLE\<close>: handle/lifetime) and leaves the others
  unclassified.
\<close>

datatype Category =
  GeneralCopy | PrimitiveNumeric | StringConv | AggregateArray | HandleLifetime | PlatformSpecific

fun rank :: "Category \<Rightarrow> nat" where
  "rank GeneralCopy = 0"
| "rank PrimitiveNumeric = 1"
| "rank StringConv = 2"
| "rank AggregateArray = 3"
| "rank HandleLifetime = 4"
| "rank PlatformSpecific = 5"

definition category :: "TagId \<Rightarrow> Category option" where
  "category t =
    (if t \<in> set [''MARSHAL_TYPE_GENERIC_1'', ''MARSHAL_TYPE_GENERIC_U1'',
                  ''MARSHAL_TYPE_GENERIC_2'', ''MARSHAL_TYPE_GENERIC_U2'',
                  ''MARSHAL_TYPE_GENERIC_4'', ''MARSHAL_TYPE_GENERIC_U4'',
                  ''MARSHAL_TYPE_GENERIC_8'']
     then Some GeneralCopy
     else if t \<in> set [''MARSHAL_TYPE_LPWSTR'', ''MARSHAL_TYPE_LPSTR'',
                  ''MARSHAL_TYPE_LPUTF8STR'', ''MARSHAL_TYPE_BSTR'',
                  ''MARSHAL_TYPE_ANSIBSTR'', ''MARSHAL_TYPE_LPWSTR_BUFFER'',
                  ''MARSHAL_TYPE_LPSTR_BUFFER'', ''MARSHAL_TYPE_VBBYVALSTR'',
                  ''MARSHAL_TYPE_VBBYVALSTRW'', ''MARSHAL_TYPE_FIXED_WSTR'',
                  ''MARSHAL_TYPE_FIXED_CSTR'']
     then Some StringConv
     else if t \<in> set [''MARSHAL_TYPE_SAFEARRAY'', ''MARSHAL_TYPE_NATIVEARRAY'',
                  ''MARSHAL_TYPE_ARRAYWITHOFFSET'', ''MARSHAL_TYPE_FIXED_ARRAY'']
     then Some AggregateArray
     else if t \<in> set [''MARSHAL_TYPE_HANDLEREF'', ''MARSHAL_TYPE_SAFEHANDLE'',
                  ''MARSHAL_TYPE_CRITICALHANDLE'', ''MARSHAL_TYPE_RUNTIMETYPEHANDLE'',
                  ''MARSHAL_TYPE_RUNTIMEMETHODHANDLE'', ''MARSHAL_TYPE_RUNTIMEFIELDHANDLE'']
     then Some HandleLifetime
     else None)"

definition earlier :: "Category option \<Rightarrow> Category option \<Rightarrow> bool" where
  "earlier a b = (case (a, b) of (Some x, Some y) \<Rightarrow> rank x < rank y | _ \<Rightarrow> False)"

text \<open>
  The entries are in category order when no entry is followed by an entry of an
  earlier category.
\<close>

definition category_ordered :: "TagEntry list \<Rightarrow> bool" where
  "category_ordered es =
     sorted_wrt (\<lambda>a b. \<not> earlier (category (tag b)) (category (tag a))) es"

subsection \<open>Registry and dispatcher\<close>

text \<open>
  Modelled from the spec: the registry and the dispatcher are not part of the sources.
  Section 4.4: the registry is built once, iterating the tag space in declaration
  order; an entry whose feature gate holds has its bound converter instantiated and
  bound to its tag in the index; construction fails (\<open>BuildInconsistency\<close>) when the
  bound converter does not exist in this build (\<open>impl\<close> is the set of converter
  classes that do). The registry owns one instance per active entry; a reference to an
  instance is its slot in \<open>instances\<close>. Section 4.5: \<open>resolve\<close> is a stateless lookup
  in the frozen registry; a tag that is not bound is \<open>FeatureNotSupported\<close> when the
  tag space declares it and \<open>UnsupportedMarshalKind\<close> otherwise.
\<close>

datatype Error =
  BuildInconsistency | UnsupportedMarshalKind | FeatureNotSupported | ConversionFailed

record ConverterContract =
  implementation :: ConverterId

record MarshalerRegistry =
  instances :: "ConverterContract list"
  index :: "(TagId \<times> nat) list"

definition instantiate :: "ConverterId \<Rightarrow> ConverterContract" where
  "instantiate c = \<lparr>implementation = c\<rparr>"

definition bind_entry :: "TagEntry \<Rightarrow> MarshalerRegistry \<Rightarrow> MarshalerRegistry" where
  "bind_entry e reg =
     \<lparr>instances = instances reg @ [instantiate (converterBinding e)],
      index = index reg @ [(tag e, length (instances reg))]\<rparr>"

fun construct_from ::
  "ConverterId set \<Rightarrow> config \<Rightarrow> TagEntry list \<Rightarrow> MarshalerRegistry \<Rightarrow> Error + MarshalerRegistry"
where
  "construct_from impl D [] reg = Inr reg"
| "construct_from impl D (e # es) reg =
     (if FeatureGate D e then
        (if converterBinding e \<in> impl then construct_from impl D es (bind_entry e reg)
         else Inl BuildInconsistency)
      else construct_from impl D es reg)"

definition MarshalerRegistry_construct ::
  "ConverterId set \<Rightarrow> config \<Rightarrow> Error + MarshalerRegistry" where
  "MarshalerRegistry_construct impl D =
     construct_from impl D TagSpace \<lparr>instances = [], index = []\<rparr>"

definition resolve :: "MarshalerRegistry \<Rightarrow> TagId \<Rightarrow> Error + nat" where
  "resolve reg t =
     (case map_of (index reg) t of
        Some r \<Rightarrow> Inr r
      | None \<Rightarrow>
          if t \<in> set (map tag TagSpace) then Inl FeatureNotSupported
          else Inl UnsupportedMarshalKind)"

definition deref :: "MarshalerRegistry \<Rightarrow> nat \<Rightarrow> ConverterContract option" where
  "deref reg r = (if r < length (instances reg) then Some (instances reg ! r) else None)"



section \<open>Conditional inclusion and the declared rows\<close>

lemma preprocess_balanced:
  "balanced (length st) ls \<Longrightarrow> \<exists>rs. preprocess D st ls = Some rs"
proof (induction ls arbitrary: st)
  case Nil
  then show ?case by simp
next
  case (Cons l ls)
  show ?case
  proof (cases l)
    case (DEFINE_MARSHALER_TYPE t c)
    with Cons.prems have "balanced (length st) ls" by simp
    from Cons.IH [OF this] obtain rs where "preprocess D st ls = Some rs" ..
    with DEFINE_MARSHALER_TYPE show ?thesis by simp
  next
    case (IFDEF f)
    with Cons.prems have "balanced (length ((f \<in> D) # st)) ls" by simp
    from Cons.IH [OF this] IFDEF show ?thesis by simp
  next
    case (IF_DEFINED f)
    with Cons.prems have "balanced (length ((f \<in> D) # st)) ls" by simp
    from Cons.IH [OF this] IF_DEFINED show ?thesis by simp
  next
    case ENDIF
    with Cons.prems obtain b st' where st: "st = b # st'" and "balanced (length st') ls"
      by (cases st) auto
    from Cons.IH [OF this(2)] ENDIF st show ?thesis by simp
  qed
qed

text \<open>
  Under a stack that evaluates the enclosing guards \<open>gs\<close> in \<open>D\<close>, the preprocessor keeps
  exactly the declared rows whose guards all hold.
\<close>

lemma preprocess_declared:
  "preprocess D (map (\<lambda>f. f \<in> D) gs) ls = Some rs \<Longrightarrow>
   rs = map row (filter (FeatureGate D) (declared gs ls))"
proof (induction ls arbitrary: gs rs)
  case Nil
  then show ?case by (simp split: if_splits)
next
  case (Cons l ls)
  show ?case
  proof (cases l)
    case (DEFINE_MARSHALER_TYPE t c)
    with Cons.prems obtain rs' where
      rs': "preprocess D (map (\<lambda>f. f \<in> D) gs) ls = Some rs'" and
      rs: "rs = (if list_all id (map (\<lambda>f. f \<in> D) gs) then (t, c) # rs' else rs')"
      by (auto split: option.splits)
    have "list_all id (map (\<lambda>f. f \<in> D) gs) = list_all (\<lambda>f. f \<in> D) gs"
      by (simp add: list.pred_map comp_def)
    with rs Cons.IH [OF rs'] DEFINE_MARSHALER_TYPE show ?thesis
      by (simp add: FeatureGate_def row_def)
  next
    case (IFDEF f)
    with Cons.prems have "preprocess D (map (\<lambda>f. f \<in> D) (f # gs)) ls = Some rs" by simp
    from Cons.IH [OF this] IFDEF show ?thesis by simp
  next
    case (IF_DEFINED f)
    with Cons.prems have "preprocess D (map (\<lambda>f. f \<in> D) (f # gs)) ls = Some rs" by simp
    from Cons.IH [OF this] IF_DEFINED show ?thesis by simp
  next
    case ENDIF
    with Cons.prems obtain g gs' where gs: "gs = g # gs'"
      and "preprocess D (map (\<lambda>f. f \<in> D) gs') ls = Some rs"
      by (cases gs) auto
    from Cons.IH [OF this(2)] ENDIF gs show ?thesis by simp
  qed
qed

lemma balanced_mtypes_h: "balanced 0 mtypes_h"
  by (simp add: mtypes_h_def)

text \<open>The header preprocesses without error in every configuration.\<close>

lemma preprocess_mtypes_h: "preprocess D [] mtypes_h = Some (generated D)"
proof -
  from preprocess_balanced [of "[]" mtypes_h D] balanced_mtypes_h
  obtain rs where "preprocess D [] mtypes_h = Some rs" by auto
  then show ?thesis by (simp add: generated_def)
qed

lemma generated_eq: "generated D = map row (filter (FeatureGate D) TagSpace)"
  using preprocess_declared [of D "[]" mtypes_h "generated D"] preprocess_mtypes_h [of D]
  by (simp add: TagSpace_def)

lemma fst_row: "fst \<circ> row = tag"
  by (auto simp: row_def)

lemma MarshalType_eq: "MarshalType D = map tag (filter (FeatureGate D) TagSpace)"
  by (simp add: MarshalType_def generated_eq fst_row)

lemma active_iff:
  "t \<in> set (MarshalType D) \<longleftrightarrow> (\<exists>e \<in> set TagSpace. tag e = t \<and> FeatureGate D e)"
  by (auto simp: MarshalType_eq)

lemma FeatureGate_mono: "D1 \<subseteq> D2 \<Longrightarrow> FeatureGate D1 e \<Longrightarrow> FeatureGate D2 e"
  by (auto simp: FeatureGate_def list_all_iff)

lemma subseq_filter_mono:
  "(\<And>x. P x \<Longrightarrow> Q x) \<Longrightarrow> subseq (filter P xs) (filter Q xs)"
  by (induction xs) auto

text \<open>A form of \<open>filter\<close> that evaluates element by element on a literal list.\<close>

lemma filter_eval: "filter P xs = concat (map (\<lambda>x. if P x then [x] else []) xs)"
  by (induction xs) auto

lemma distinct_tags: "distinct (map tag TagSpace)"
  by (simp add: TagSpace_def mtypes_h_def)

lemma distinct_MarshalType: "distinct (MarshalType D)"
  by (simp add: MarshalType_eq distinct_map_filter distinct_tags)

lemma length_TagSpace: "length TagSpace = 57"
  by (simp add: TagSpace_def mtypes_h_def)

lemma excluded_not_generated:
  assumes "e \<in> set TagSpace" and "\<not> FeatureGate D e"
  shows "tag e \<notin> set (MarshalType D)"
proof
  assume "tag e \<in> set (MarshalType D)"
  then obtain e' where e': "e' \<in> set TagSpace" "tag e' = tag e" "FeatureGate D e'"
    by (auto simp: active_iff)
  from distinct_tags e'(1,2) assms(1) have "e' = e"
    by (simp add: distinct_map inj_on_def)
  with e'(3) assms(2) show False by simp
qed

section \<open>Properties of the table\<close>

text \<open>
  C5. Every tag identifier of the table is declared exactly once: the identifiers of
  the declared rows are pairwise different, and so are the enumerators generated in any
  configuration.
\<close>

theorem tags_declared_once:
  "distinct (map tag TagSpace) \<and> distinct (MarshalType D) \<and> length (map tag TagSpace) = 57"
  by (simp add: distinct_tags distinct_MarshalType length_TagSpace)

text \<open>
  C6. A row whose guard is false in a configuration is absent from what that
  configuration generates: its identifier is not an enumerator, its row is not in the
  binding table, and no slot stands in for it, the generated list being exactly the
  rows whose guards hold (its length is the number of declared rows less the number of
  excluded ones).
\<close>

theorem excluded_entry_absent:
  assumes "e \<in> set TagSpace" and "\<not> FeatureGate D e"
  shows "tag e \<notin> set (MarshalType D) \<and> row e \<notin> set (generated D) \<and>
         generated D = map row (filter (FeatureGate D) TagSpace) \<and>
         length (generated D) =
           length TagSpace - length (filter (\<lambda>e. \<not> FeatureGate D e) TagSpace)"
proof (intro conjI)
  show t: "tag e \<notin> set (MarshalType D)"
    by (rule excluded_not_generated [OF assms])
  show "row e \<notin> set (generated D)"
  proof
    assume "row e \<in> set (generated D)"
    then have "fst (row e) \<in> set (MarshalType D)"
      unfolding MarshalType_def by (simp only: set_map) (rule imageI)
    with t show False by (simp add: row_def)
  qed
  show "generated D = map row (filter (FeatureGate D) TagSpace)"
    by (rule generated_eq)
  have "length (filter (FeatureGate D) TagSpace) +
        length (filter (\<lambda>e. \<not> FeatureGate D e) TagSpace) = length TagSpace"
    by (rule sum_length_filter_compl)
  then show "length (generated D) =
      length TagSpace - length (filter (\<lambda>e. \<not> FeatureGate D e) TagSpace)"
    by (simp add: generated_eq)
qed

theorem excluded_entry_absent_witness:
  "\<lparr>tag = ''MARSHAL_TYPE_VTBOOL'', converterBinding = ''VtBoolMarshaler'',
     requiredFeatures = [''FEATURE_COMINTEROP'']\<rparr> \<in> set TagSpace \<and>
   \<not> FeatureGate {''TARGET_WINDOWS''}
       \<lparr>tag = ''MARSHAL_TYPE_VTBOOL'', converterBinding = ''VtBoolMarshaler'',
        requiredFeatures = [''FEATURE_COMINTEROP'']\<rparr> \<and>
   ''MARSHAL_TYPE_VTBOOL'' \<notin> set (MarshalType {''TARGET_WINDOWS''}) \<and>
   (''MARSHAL_TYPE_VTBOOL'', ''VtBoolMarshaler'') \<notin> set (generated {''TARGET_WINDOWS''}) \<and>
   length (generated {''TARGET_WINDOWS''}) = 50"
proof -
  let ?e = "\<lparr>tag = ''MARSHAL_TYPE_VTBOOL'', converterBinding = ''VtBoolMarshaler'',
     requiredFeatures = [''FEATURE_COMINTEROP'']\<rparr>"
  have 1: "?e \<in> set TagSpace" by (simp add: TagSpace_def mtypes_h_def)
  have 2: "\<not> FeatureGate {''TARGET_WINDOWS''} ?e" by (simp add: FeatureGate_def)
  have 3: "length (filter (\<lambda>e. \<not> FeatureGate {''TARGET_WINDOWS''} e) TagSpace) = 7"
    by (simp add: TagSpace_def mtypes_h_def FeatureGate_def filter_eval del: filter.simps)
  from excluded_entry_absent [OF 1 2]
  have a: "tag ?e \<notin> set (MarshalType {''TARGET_WINDOWS''})"
    and b: "row ?e \<notin> set (generated {''TARGET_WINDOWS''})"
    and c: "length (generated {''TARGET_WINDOWS''}) =
      length TagSpace - length (filter (\<lambda>e. \<not> FeatureGate {''TARGET_WINDOWS''} e) TagSpace)"
    by blast+
  from c have c': "length (generated {''TARGET_WINDOWS''}) = 50"
    by (simp add: 3 length_TagSpace)
  from a have a': "''MARSHAL_TYPE_VTBOOL'' \<notin> set (MarshalType {''TARGET_WINDOWS''})"
    by simp
  from b have b': "(''MARSHAL_TYPE_VTBOOL'', ''VtBoolMarshaler'') \<notin> set (generated {''TARGET_WINDOWS''})"
    by (simp add: row_def)
  from 1 2 a' b' c' show ?thesis by blast
qed

text \<open>
  C10. Configurations are monotone: when the macros defined in \<open>D1\<close> are among those
  defined in \<open>D2\<close>, the rows generated for \<open>D1\<close> are a subsequence of the rows generated
  for \<open>D2\<close> (same relative order, nothing removed), and every tag generated for \<open>D1\<close> is
  bound to the same converter class in both.
\<close>

theorem config_monotone:
  assumes "D1 \<subseteq> D2"
  shows "subseq (generated D1) (generated D2) \<and>
         (\<forall>t \<in> set (MarshalType D1). t \<in> set (MarshalType D2) \<and>
            map_of (generated D1) t \<noteq> None \<and>
            map_of (generated D1) t = map_of (generated D2) t)"
proof
  show "subseq (generated D1) (generated D2)"
    unfolding generated_eq
    by (intro subseq_map subseq_filter_mono FeatureGate_mono [OF assms])
  show "\<forall>t \<in> set (MarshalType D1). t \<in> set (MarshalType D2) \<and>
            map_of (generated D1) t \<noteq> None \<and>
            map_of (generated D1) t = map_of (generated D2) t"
  proof
    fix t assume t: "t \<in> set (MarshalType D1)"
    then obtain c where c: "(t, c) \<in> set (generated D1)"
      by (auto simp: MarshalType_def)
    with assms have c2: "(t, c) \<in> set (generated D2)"
      by (auto simp: generated_eq dest: FeatureGate_mono)
    then have "t \<in> set (MarshalType D2)"
      unfolding MarshalType_def by (simp only: set_map) (rule image_eqI [of _ _ "(t, c)"], simp_all)
    moreover have d: "distinct (map fst (generated D1))" "distinct (map fst (generated D2))"
      using distinct_MarshalType by (simp_all add: MarshalType_def)
    ultimately show "t \<in> set (MarshalType D2) \<and> map_of (generated D1) t \<noteq> None \<and>
        map_of (generated D1) t = map_of (generated D2) t"
      using c c2 by simp
  qed
qed

theorem config_monotone_witness:
  "{''TARGET_WINDOWS''} \<subseteq> {''TARGET_WINDOWS'', ''FEATURE_COMINTEROP''} \<and>
   subseq (generated {''TARGET_WINDOWS''}) (generated {''TARGET_WINDOWS'', ''FEATURE_COMINTEROP''}) \<and>
   ''MARSHAL_TYPE_NATIVEARRAY'' \<in> set (MarshalType {''TARGET_WINDOWS''}) \<and>
   map_of (generated {''TARGET_WINDOWS''}) ''MARSHAL_TYPE_NATIVEARRAY'' =
     map_of (generated {''TARGET_WINDOWS'', ''FEATURE_COMINTEROP''}) ''MARSHAL_TYPE_NATIVEARRAY'' \<and>
   map_of (generated {''TARGET_WINDOWS''}) ''MARSHAL_TYPE_NATIVEARRAY'' = Some ''NativeArrayMarshaler'' \<and>
   length (generated {''TARGET_WINDOWS''}) = 50 \<and>
   length (generated {''TARGET_WINDOWS'', ''FEATURE_COMINTEROP''}) = 57"
proof -
  have s: "{''TARGET_WINDOWS''} \<subseteq> {''TARGET_WINDOWS'', ''FEATURE_COMINTEROP''}" by simp
  have a: "''MARSHAL_TYPE_NATIVEARRAY'' \<in> set (MarshalType {''TARGET_WINDOWS''})"
    by (simp add: MarshalType_eq TagSpace_def mtypes_h_def FeatureGate_def
        filter_eval del: filter.simps)
  have m: "map_of (generated {''TARGET_WINDOWS''}) ''MARSHAL_TYPE_NATIVEARRAY'' = Some ''NativeArrayMarshaler''"
    by (simp add: generated_eq TagSpace_def mtypes_h_def FeatureGate_def row_def
        filter_eval del: filter.simps)
  have l1: "length (generated {''TARGET_WINDOWS''}) = 50"
    by (simp add: generated_eq TagSpace_def mtypes_h_def FeatureGate_def
        filter_eval del: filter.simps)
  have l2: "length (generated {''TARGET_WINDOWS'', ''FEATURE_COMINTEROP''}) = 57"
    by (simp add: generated_eq TagSpace_def mtypes_h_def FeatureGate_def
        filter_eval del: filter.simps)
  from config_monotone [OF s] a m l1 l2 show ?thesis by auto
qed


text \<open>
  C9. Every declared row has at most one guard, and only two macros guard rows:
  \<^verbatim>\<open>FEATURE_COMINTEROP\<close> guards exactly seven rows, \<^verbatim>\<open>TARGET_WINDOWS\<close> guards exactly one,
  and the other 49 rows have no guard and are generated in every configuration.
\<close>

theorem guards_of_table:
  "list_all (\<lambda>e. length (requiredFeatures e) \<le> 1) TagSpace \<and>
   set (concat (map requiredFeatures TagSpace)) = {''FEATURE_COMINTEROP'', ''TARGET_WINDOWS''} \<and>
   map tag (filter (\<lambda>e. requiredFeatures e = [''FEATURE_COMINTEROP'']) TagSpace) =
     [''MARSHAL_TYPE_VTBOOL'', ''MARSHAL_TYPE_INTERFACE'', ''MARSHAL_TYPE_SAFEARRAY'',
      ''MARSHAL_TYPE_VBBYVALSTR'', ''MARSHAL_TYPE_VBBYVALSTRW'', ''MARSHAL_TYPE_OBJECT'',
      ''MARSHAL_TYPE_OLECOLOR''] \<and>
   map tag (filter (\<lambda>e. requiredFeatures e = [''TARGET_WINDOWS'']) TagSpace) =
     [''MARSHAL_TYPE_BLITTABLEVALUECLASSWITHCOPYCTOR''] \<and>
   length (filter (\<lambda>e. requiredFeatures e = []) TagSpace) = 49 \<and>
   length TagSpace = 57 \<and>
   (\<forall>e \<in> set TagSpace. requiredFeatures e = [] \<longrightarrow> tag e \<in> set (MarshalType D))"
proof (intro conjI)
  show "list_all (\<lambda>e. length (requiredFeatures e) \<le> 1) TagSpace"
    by (simp add: TagSpace_def mtypes_h_def)
  show "set (concat (map requiredFeatures TagSpace)) = {''FEATURE_COMINTEROP'', ''TARGET_WINDOWS''}"
    by (simp add: TagSpace_def mtypes_h_def insert_commute)
  show "map tag (filter (\<lambda>e. requiredFeatures e = [''FEATURE_COMINTEROP'']) TagSpace) =
     [''MARSHAL_TYPE_VTBOOL'', ''MARSHAL_TYPE_INTERFACE'', ''MARSHAL_TYPE_SAFEARRAY'',
      ''MARSHAL_TYPE_VBBYVALSTR'', ''MARSHAL_TYPE_VBBYVALSTRW'', ''MARSHAL_TYPE_OBJECT'',
      ''MARSHAL_TYPE_OLECOLOR'']"
    by (simp add: TagSpace_def mtypes_h_def filter_eval del: filter.simps)
  show "map tag (filter (\<lambda>e. requiredFeatures e = [''TARGET_WINDOWS'']) TagSpace) =
     [''MARSHAL_TYPE_BLITTABLEVALUECLASSWITHCOPYCTOR'']"
    by (simp add: TagSpace_def mtypes_h_def filter_eval del: filter.simps)
  show "length (filter (\<lambda>e. requiredFeatures e = []) TagSpace) = 49"
    by (simp add: TagSpace_def mtypes_h_def filter_eval del: filter.simps)
  show "length TagSpace = 57"
    by (rule length_TagSpace)
  show "\<forall>e \<in> set TagSpace. requiredFeatures e = [] \<longrightarrow> tag e \<in> set (MarshalType D)"
  proof (intro ballI impI)
    fix e assume e: "e \<in> set TagSpace" and "requiredFeatures e = []"
    then have "FeatureGate D e" by (simp add: FeatureGate_def)
    with e show "tag e \<in> set (MarshalType D)"
      unfolding active_iff by (intro bexI [of _ e]) simp_all
  qed
qed

theorem guards_of_table_witness:
  "\<lparr>tag = ''MARSHAL_TYPE_GENERIC_4'', converterBinding = ''CopyMarshaler4'',
     requiredFeatures = []\<rparr> \<in> set TagSpace \<and>
   ''MARSHAL_TYPE_GENERIC_4'' \<in> set (MarshalType {})"
proof -
  let ?e = "\<lparr>tag = ''MARSHAL_TYPE_GENERIC_4'', converterBinding = ''CopyMarshaler4'',
     requiredFeatures = []\<rparr>"
  have 1: "?e \<in> set TagSpace" by (simp add: TagSpace_def mtypes_h_def)
  from guards_of_table [of "{}"]
  have "\<forall>e \<in> set TagSpace. requiredFeatures e = [] \<longrightarrow> tag e \<in> set (MarshalType {})"
    by blast
  from this 1 have "requiredFeatures ?e = [] \<longrightarrow> tag ?e \<in> set (MarshalType {})"
    by (rule bspec)
  then have "''MARSHAL_TYPE_GENERIC_4'' \<in> set (MarshalType {})" by simp
  with 1 show ?thesis by blast
qed

section \<open>Ordinals of the generated enumeration\<close>






section \<open>Declaration order and categories\<close>

text \<open>
  C8, as the table has it. The rows are not in category order: the handle converter
  \<^verbatim>\<open>MARSHAL_TYPE_SAFEHANDLE\<close> (row 45) is declared before the array converter
  \<^verbatim>\<open>MARSHAL_TYPE_FIXED_ARRAY\<close> (row 51), although aggregate/array converters come before
  handle/lifetime converters in the category list.
\<close>

theorem category_order_counterexample: "\<not> category_ordered TagSpace"
proof
  assume "category_ordered TagSpace"
  then have "sorted_wrt (\<lambda>a b. \<not> earlier (category (tag b)) (category (tag a))) TagSpace"
    by (simp add: category_ordered_def)
  from sorted_wrt_nth_less [OF this, of 45 51]
  have "\<not> earlier (category (tag (TagSpace ! 51))) (category (tag (TagSpace ! 45)))"
    by (simp add: length_TagSpace)
  moreover have "tag (TagSpace ! 45) = ''MARSHAL_TYPE_SAFEHANDLE''"
    by (simp add: TagSpace_def mtypes_h_def)
  moreover have "tag (TagSpace ! 51) = ''MARSHAL_TYPE_FIXED_ARRAY''"
    by (simp add: TagSpace_def mtypes_h_def)
  moreover have "earlier (category ''MARSHAL_TYPE_FIXED_ARRAY'') (category ''MARSHAL_TYPE_SAFEHANDLE'')"
    by (simp add: category_def earlier_def)
  ultimately show False by simp
qed

text \<open>
  C8, amended. The rows are declared in one fixed order, which the generated rows of
  every configuration keep (they are a subsequence of the declared rows); the
  general-purpose copy converters come first: they are the first seven rows, the
  \<^verbatim>\<open>MARSHAL_TYPE_GENERIC_*\<close> tags, and no later row is one of them.
\<close>

theorem declaration_order_fixed:
  "subseq (generated D) (map row TagSpace) \<and>
   filter (\<lambda>e. category (tag e) = Some GeneralCopy) TagSpace = take 7 TagSpace \<and>
   map row (take 7 TagSpace) =
     [(''MARSHAL_TYPE_GENERIC_1'', ''CopyMarshaler1''),
      (''MARSHAL_TYPE_GENERIC_U1'', ''CopyMarshalerU1''),
      (''MARSHAL_TYPE_GENERIC_2'', ''CopyMarshaler2''),
      (''MARSHAL_TYPE_GENERIC_U2'', ''CopyMarshalerU2''),
      (''MARSHAL_TYPE_GENERIC_4'', ''CopyMarshaler4''),
      (''MARSHAL_TYPE_GENERIC_U4'', ''CopyMarshalerU4''),
      (''MARSHAL_TYPE_GENERIC_8'', ''CopyMarshaler8'')] \<and>
   take 7 (generated D) = map row (take 7 TagSpace)"
proof (intro conjI)
  show "subseq (generated D) (map row TagSpace)"
    unfolding generated_eq by (intro subseq_map subseq_filter_left)
  show "filter (\<lambda>e. category (tag e) = Some GeneralCopy) TagSpace = take 7 TagSpace"
    by (simp add: TagSpace_def mtypes_h_def category_def filter_eval del: filter.simps)
  show "map row (take 7 TagSpace) =
     [(''MARSHAL_TYPE_GENERIC_1'', ''CopyMarshaler1''),
      (''MARSHAL_TYPE_GENERIC_U1'', ''CopyMarshalerU1''),
      (''MARSHAL_TYPE_GENERIC_2'', ''CopyMarshaler2''),
      (''MARSHAL_TYPE_GENERIC_U2'', ''CopyMarshalerU2''),
      (''MARSHAL_TYPE_GENERIC_4'', ''CopyMarshaler4''),
      (''MARSHAL_TYPE_GENERIC_U4'', ''CopyMarshalerU4''),
      (''MARSHAL_TYPE_GENERIC_8'', ''CopyMarshaler8'')]"
    by (simp add: TagSpace_def mtypes_h_def row_def)
  have "TagSpace = take 7 TagSpace @ drop 7 TagSpace" by simp
  then have "filter (FeatureGate D) TagSpace =
      filter (FeatureGate D) (take 7 TagSpace) @ filter (FeatureGate D) (drop 7 TagSpace)"
    by (metis filter_append)
  moreover have "filter (FeatureGate D) (take 7 TagSpace) = take 7 TagSpace"
    by (simp add: TagSpace_def mtypes_h_def FeatureGate_def)
  moreover have "length (take 7 TagSpace) = 7"
    by (simp add: length_TagSpace)
  ultimately show "take 7 (generated D) = map row (take 7 TagSpace)"
    by (simp add: generated_eq take_map)
qed


section \<open>Registry construction and dispatch\<close>

lemma index_of_None: "index_of xs x = None \<longleftrightarrow> x \<notin> set xs"
  by (induction xs) auto

lemma index_of_Some: "index_of xs x = Some i \<Longrightarrow> i < length xs \<and> xs ! i = x"
  by (induction xs arbitrary: i) (auto split: if_splits)

lemma upt_head: "[k..<Suc (k + n)] = k # [Suc k..<Suc (k + n)]"
  by (rule upt_conv_Cons) simp

lemma map_of_zip_upt:
  "map_of (zip xs [k..<k + length xs]) x = map_option (\<lambda>i. k + i) (index_of xs x)"
proof (induction xs arbitrary: k)
  case Nil
  show ?case by simp
next
  case (Cons y ys)
  from Cons.IH [of "Suc k"] show ?case
    by (simp add: upt_head option.map_comp comp_def del: upt_Suc)
qed

text \<open>
  What construction yields when it succeeds: one instance per generated row, in row
  order, and the index binding the tag of the \<open>i\<close>-th generated row to slot \<open>i\<close>.
\<close>

lemma construct_from_Inr:
  "construct_from impl D es reg = Inr reg' \<Longrightarrow>
   instances reg' =
     instances reg @ map (\<lambda>e. instantiate (converterBinding e)) (filter (FeatureGate D) es) \<and>
   index reg' =
     index reg @ zip (map tag (filter (FeatureGate D) es))
       [length (instances reg)..<length (instances reg) + length (filter (FeatureGate D) es)]"
proof (induction es arbitrary: reg)
  case Nil
  then show ?case by simp
next
  case (Cons e es)
  show ?case
  proof (cases "FeatureGate D e")
    case False
    with Cons.prems have "construct_from impl D es reg = Inr reg'" by simp
    from Cons.IH [OF this] False show ?thesis by simp
  next
    case True
    with Cons.prems have "construct_from impl D es (bind_entry e reg) = Inr reg'"
      by (simp split: if_splits)
    from Cons.IH [OF this] True show ?thesis
      by (simp add: bind_entry_def upt_head del: upt_Suc)
  qed
qed

lemma construct_from_total:
  "converterBinding ` set (filter (FeatureGate D) es) \<subseteq> impl \<Longrightarrow>
   \<exists>reg'. construct_from impl D es reg = Inr reg'"
  by (induction es arbitrary: reg) auto

lemma construct_total:
  "converterBinding ` set (filter (FeatureGate D) TagSpace) \<subseteq> impl \<Longrightarrow>
   \<exists>reg. MarshalerRegistry_construct impl D = Inr reg"
  unfolding MarshalerRegistry_construct_def by (rule construct_from_total)

lemma registry_instances:
  assumes "MarshalerRegistry_construct impl D = Inr reg"
  shows "instances reg = map (\<lambda>c. instantiate (snd c)) (generated D)"
  using construct_from_Inr [OF assms [unfolded MarshalerRegistry_construct_def]]
  by (simp add: generated_eq row_def comp_def)

lemma registry_index:
  assumes "MarshalerRegistry_construct impl D = Inr reg"
  shows "map_of (index reg) t = ordinal D t"
proof -
  from construct_from_Inr [OF assms [unfolded MarshalerRegistry_construct_def]]
  have "index reg = zip (MarshalType D) [0..<0 + length (MarshalType D)]"
    by (simp add: MarshalType_eq)
  then show ?thesis
    by (simp only: map_of_zip_upt ordinal_def) (simp add: option.map_ident)
qed

lemma resolve_registry:
  assumes "MarshalerRegistry_construct impl D = Inr reg"
  shows "resolve reg t =
    (case ordinal D t of
       Some r \<Rightarrow> Inr r
     | None \<Rightarrow> if t \<in> set (map tag TagSpace) then Inl FeatureNotSupported
               else Inl UnsupportedMarshalKind)"
  by (simp add: resolve_def registry_index [OF assms])

lemma resolve_active:
  assumes reg: "MarshalerRegistry_construct impl D = Inr reg"
    and t: "t \<in> set (MarshalType D)"
  shows "\<exists>r c. resolve reg t = Inr r \<and> ordinal D t = Some r \<and> deref reg r = Some c \<and>
               map_of (generated D) t = Some (implementation c)"
proof -
  from t obtain r where r: "ordinal D t = Some r"
    by (cases "ordinal D t") (auto simp: ordinal_def index_of_None)
  then have lt: "r < length (MarshalType D)" and nth: "MarshalType D ! r = t"
    by (auto simp: ordinal_def dest: index_of_Some)
  from lt have lt': "r < length (generated D)" by (simp add: MarshalType_def)
  let ?c = "instantiate (snd (generated D ! r))"
  from lt' have d: "deref reg r = Some ?c"
    by (simp add: deref_def registry_instances [OF reg])
  from nth lt' have "generated D ! r = (t, implementation ?c)"
    by (simp add: MarshalType_def instantiate_def prod_eq_iff)
  with lt' have "(t, implementation ?c) \<in> set (generated D)"
    by (metis nth_mem)
  moreover have "distinct (map fst (generated D))"
    using distinct_MarshalType [of D] by (simp add: MarshalType_def)
  ultimately have "map_of (generated D) t = Some (implementation ?c)" by simp
  with r d show ?thesis by (simp add: resolve_registry [OF reg])
qed

lemma resolve_inactive:
  assumes reg: "MarshalerRegistry_construct impl D = Inr reg"
    and t: "t \<notin> set (MarshalType D)"
  shows "resolve reg t =
    (if t \<in> set (map tag TagSpace) then Inl FeatureNotSupported else Inl UnsupportedMarshalKind)"
proof -
  from t have "ordinal D t = None" by (simp add: ordinal_def index_of_None)
  then show ?thesis by (simp add: resolve_registry [OF reg])
qed

lemma generic_4_declared:
  "\<lparr>tag = ''MARSHAL_TYPE_GENERIC_4'', converterBinding = ''CopyMarshaler4'',
     requiredFeatures = []\<rparr> \<in> set TagSpace"
  by (simp add: TagSpace_def mtypes_h_def)

lemma generic_4_active: "''MARSHAL_TYPE_GENERIC_4'' \<in> set (MarshalType D)"
  unfolding active_iff
  by (rule bexI [OF _ generic_4_declared]) (simp add: FeatureGate_def)

lemma generic_4_bound: "map_of (generated D) ''MARSHAL_TYPE_GENERIC_4'' = Some ''CopyMarshaler4''"
proof -
  have "FeatureGate D \<lparr>tag = ''MARSHAL_TYPE_GENERIC_4'', converterBinding = ''CopyMarshaler4'',
     requiredFeatures = []\<rparr>"
    by (simp add: FeatureGate_def)
  with generic_4_declared
  have "(''MARSHAL_TYPE_GENERIC_4'', ''CopyMarshaler4'') \<in> set (generated D)"
    unfolding generated_eq set_map set_filter row_def by force
  moreover have "distinct (map fst (generated D))"
    using distinct_MarshalType [of D] by (simp add: MarshalType_def)
  ultimately show ?thesis by simp
qed

lemma interface_declared:
  "\<lparr>tag = ''MARSHAL_TYPE_INTERFACE'', converterBinding = ''InterfaceMarshaler'',
     requiredFeatures = [''FEATURE_COMINTEROP'']\<rparr> \<in> set TagSpace"
  by (simp add: TagSpace_def mtypes_h_def)

lemma interface_tag_declared: "''MARSHAL_TYPE_INTERFACE'' \<in> set (map tag TagSpace)"
proof -
  from interface_declared
  have "tag \<lparr>tag = ''MARSHAL_TYPE_INTERFACE'', converterBinding = ''InterfaceMarshaler'',
     requiredFeatures = [''FEATURE_COMINTEROP'']\<rparr> \<in> tag ` set TagSpace"
    by (rule imageI)
  then show ?thesis by simp
qed

lemma interface_excluded:
  "''FEATURE_COMINTEROP'' \<notin> D \<Longrightarrow> ''MARSHAL_TYPE_INTERFACE'' \<notin> set (MarshalType D)"
  using excluded_not_generated [OF interface_declared, of D]
  by (simp add: FeatureGate_def)

lemma registry_exists: "\<exists>reg. MarshalerRegistry_construct UNIV D = Inr reg"
  by (rule construct_total) simp

text \<open>
  C1. Once the registry of a configuration is built, resolving any tag that the
  configuration generates succeeds: the result is a reference to an instance the
  registry holds (never a dangling or null slot), and that instance is of the converter
  class the table binds to the tag. \<^verbatim>\<open>MARSHAL_TYPE_GENERIC_4\<close> has no guard, so it
  resolves, to \<^verbatim>\<open>CopyMarshaler4\<close>, in every configuration.
\<close>

theorem resolve_active_succeeds:
  assumes "MarshalerRegistry_construct impl D = Inr reg"
  shows "(\<forall>t \<in> set (MarshalType D). \<exists>r c. resolve reg t = Inr r \<and> deref reg r = Some c \<and>
            map_of (generated D) t = Some (implementation c)) \<and>
         (\<exists>r c. resolve reg ''MARSHAL_TYPE_GENERIC_4'' = Inr r \<and> deref reg r = Some c \<and>
            implementation c = ''CopyMarshaler4'')"
proof
  show "\<forall>t \<in> set (MarshalType D). \<exists>r c. resolve reg t = Inr r \<and> deref reg r = Some c \<and>
            map_of (generated D) t = Some (implementation c)"
    using resolve_active [OF assms] by blast
  from resolve_active [OF assms generic_4_active]
  show "\<exists>r c. resolve reg ''MARSHAL_TYPE_GENERIC_4'' = Inr r \<and> deref reg r = Some c \<and>
            implementation c = ''CopyMarshaler4''"
    by (auto simp: generic_4_bound)
qed

theorem resolve_active_succeeds_witness:
  "\<exists>reg. MarshalerRegistry_construct UNIV {''TARGET_WINDOWS''} = Inr reg \<and>
     ''MARSHAL_TYPE_GENERIC_4'' \<in> set (MarshalType {''TARGET_WINDOWS''}) \<and>
     (\<exists>r c. resolve reg ''MARSHAL_TYPE_GENERIC_4'' = Inr r \<and> deref reg r = Some c \<and>
        implementation c = ''CopyMarshaler4'')"
proof -
  obtain reg where reg: "MarshalerRegistry_construct UNIV {''TARGET_WINDOWS''} = Inr reg"
    using registry_exists by blast
  from resolve_active_succeeds [OF reg] reg generic_4_active show ?thesis by blast
qed

text \<open>
  C3. Once the registry of a configuration is built, resolving a tag that the table
  declares but the configuration does not generate fails with \<open>FeatureNotSupported\<close>,
  an error other than \<open>UnsupportedMarshalKind\<close>; \<open>resolve\<close> is total, so it returns this
  error and does nothing else. Without \<^verbatim>\<open>FEATURE_COMINTEROP\<close>, the tag bound to
  \<^verbatim>\<open>InterfaceMarshaler\<close> is such a tag.
\<close>

theorem resolve_excluded_fails:
  assumes "MarshalerRegistry_construct impl D = Inr reg"
  shows "(\<forall>t \<in> set (map tag TagSpace). t \<notin> set (MarshalType D) \<longrightarrow>
            resolve reg t = Inl FeatureNotSupported) \<and>
         FeatureNotSupported \<noteq> UnsupportedMarshalKind \<and>
         (''FEATURE_COMINTEROP'' \<notin> D \<longrightarrow>
            map_of (map row TagSpace) ''MARSHAL_TYPE_INTERFACE'' = Some ''InterfaceMarshaler'' \<and>
            resolve reg ''MARSHAL_TYPE_INTERFACE'' = Inl FeatureNotSupported)"
proof (intro conjI ballI impI)
  fix t assume "t \<in> set (map tag TagSpace)" and "t \<notin> set (MarshalType D)"
  with resolve_inactive [OF assms] show "resolve reg t = Inl FeatureNotSupported" by simp
next
  show "FeatureNotSupported \<noteq> UnsupportedMarshalKind" by simp
next
  have "row \<lparr>tag = ''MARSHAL_TYPE_INTERFACE'', converterBinding = ''InterfaceMarshaler'',
     requiredFeatures = [''FEATURE_COMINTEROP'']\<rparr> \<in> set (map row TagSpace)"
    using interface_declared by (simp only: set_map) (rule imageI)
  moreover have "distinct (map fst (map row TagSpace))"
    using distinct_tags by (simp add: fst_row)
  ultimately show "map_of (map row TagSpace) ''MARSHAL_TYPE_INTERFACE'' = Some ''InterfaceMarshaler''"
    by (simp add: row_def)
next
  assume "''FEATURE_COMINTEROP'' \<notin> D"
  then have "''MARSHAL_TYPE_INTERFACE'' \<notin> set (MarshalType D)"
    by (rule interface_excluded)
  moreover note interface_tag_declared
  ultimately show "resolve reg ''MARSHAL_TYPE_INTERFACE'' = Inl FeatureNotSupported"
    using resolve_inactive [OF assms] by simp
qed

theorem resolve_excluded_fails_witness:
  "\<exists>reg. MarshalerRegistry_construct UNIV {''TARGET_WINDOWS''} = Inr reg \<and>
     ''FEATURE_COMINTEROP'' \<notin> {''TARGET_WINDOWS''} \<and>
     ''MARSHAL_TYPE_INTERFACE'' \<in> set (map tag TagSpace) \<and>
     ''MARSHAL_TYPE_INTERFACE'' \<notin> set (MarshalType {''TARGET_WINDOWS''}) \<and>
     resolve reg ''MARSHAL_TYPE_INTERFACE'' = Inl FeatureNotSupported"
proof -
  obtain reg where reg: "MarshalerRegistry_construct UNIV {''TARGET_WINDOWS''} = Inr reg"
    using registry_exists by blast
  have 1: "''FEATURE_COMINTEROP'' \<notin> {''TARGET_WINDOWS''}" by simp
  note 2 = interface_tag_declared
  have 3: "''MARSHAL_TYPE_INTERFACE'' \<notin> set (MarshalType {''TARGET_WINDOWS''})"
    by (rule interface_excluded [OF 1])
  from resolve_excluded_fails [OF reg] 2 3
  have "resolve reg ''MARSHAL_TYPE_INTERFACE'' = Inl FeatureNotSupported" by blast
  with reg 1 2 3 show ?thesis by blast
qed

text \<open>
  C4. Once the registry of a configuration is built, resolving a tag value that the
  table never declares fails with \<open>UnsupportedMarshalKind\<close>.
\<close>

theorem resolve_undeclared_fails:
  assumes "MarshalerRegistry_construct impl D = Inr reg"
    and "t \<notin> set (map tag TagSpace)"
  shows "resolve reg t = Inl UnsupportedMarshalKind"
proof -
  have "set (MarshalType D) \<subseteq> set (map tag TagSpace)"
    by (auto simp: MarshalType_eq)
  with assms(2) have "t \<notin> set (MarshalType D)" by blast
  with resolve_inactive [OF assms(1)] assms(2) show ?thesis by simp
qed

theorem resolve_undeclared_fails_witness:
  "\<exists>reg. MarshalerRegistry_construct UNIV {''FEATURE_COMINTEROP''} = Inr reg \<and>
     ''-1'' \<notin> set (map tag TagSpace) \<and>
     resolve reg ''-1'' = Inl UnsupportedMarshalKind"
proof -
  obtain reg where reg: "MarshalerRegistry_construct UNIV {''FEATURE_COMINTEROP''} = Inr reg"
    using registry_exists by blast
  have 1: "''-1'' \<notin> set (map tag TagSpace)"
    by (simp add: TagSpace_def mtypes_h_def)
  from resolve_undeclared_fails [OF reg 1] reg 1 show ?thesis by blast
qed





end
